theory Spec2Isabelle
  imports Main "HOL-Library.Word"
begin

unbundle bit_operations_syntax

section \<open>The ZeroTier address (node/Address.hpp)\<close>

text \<open>
  An \<open>Address\<close> holds one private field, \<open>uint64_t _a\<close>. The field is modelled as a
  \<open>64 word\<close>, \<open>unsigned int\<close> arguments as \<open>32 word\<close> and \<open>unsigned char\<close> as \<open>8 word\<close>.
  A raw pointer into a byte array is modelled by the list of the bytes that are really
  allocated behind it; the declared length \<open>len\<close> is a separate argument, as in the source.
  What C++ leaves undefined (an access behind the allocation, a shift by 64 or more) is a
  \<open>fault\<close> value.
\<close>

datatype fault = OutOfBounds | ShiftTooWide

record Address =
  m_a :: "64 word"

subsection \<open>Constants of Constants.hpp\<close>

text \<open>
  Modelled from the spec: the macro \<open>ZT_ADDRESS_LENGTH\<close> of Constants.hpp, which is not
  among the sources. The spec fixes the length of an address at exactly 5 bytes, and the
  comments of \<open>setTo\<close> and \<open>copyTo\<close> say the same.
\<close>

definition ZT_ADDRESS_LENGTH :: "32 word" where
  "ZT_ADDRESS_LENGTH = 5"

text \<open>
  Modelled from the spec: the macro \<open>ZT_ADDRESS_RESERVED_PREFIX\<close> of Constants.hpp, which
  is not among the sources. The spec takes \<open>0xFF\<close> as the reserved prefix, and the comment
  of \<open>isReserved\<close> says that any address beginning with \<open>0xff\<close> is reserved.
\<close>

definition ZT_ADDRESS_RESERVED_PREFIX :: "64 word" where
  "ZT_ADDRESS_RESERVED_PREFIX = 0xff"

subsection \<open>Construction and assignment\<close>

definition Address_default :: Address where
  "Address_default = \<lparr>m_a = 0\<rparr>"

definition Address_copy :: "Address \<Rightarrow> Address" where
  "Address_copy a = \<lparr>m_a = m_a a\<rparr>"

definition Address_u64 :: "64 word \<Rightarrow> Address" where
  "Address_u64 a = \<lparr>m_a = a AND 0xffffffffff\<rparr>"

definition operator_assign :: "Address \<Rightarrow> Address \<Rightarrow> Address" where
  "operator_assign this a = this\<lparr>m_a := m_a a\<rparr>"

definition operator_assign_u64 :: "Address \<Rightarrow> 64 word \<Rightarrow> Address" where
  "operator_assign_u64 this a = this\<lparr>m_a := a AND 0xffffffffff\<rparr>"

text \<open>
  \<open>setTo\<close> reads \<open>b[0]\<close> to \<open>b[4]\<close> once \<open>len\<close> has passed the length check; the five
  reads are defined only when five bytes are allocated behind \<open>bits\<close>.
\<close>

definition setTo :: "8 word list \<Rightarrow> 32 word \<Rightarrow> Address \<Rightarrow> fault + Address" where
  "setTo bits len this =
     (if len < ZT_ADDRESS_LENGTH then Inr (this\<lparr>m_a := 0\<rparr>)
      else if length bits < 5 then Inl OutOfBounds
      else
        let a = push_bit 32 (ucast (bits ! 0) :: 64 word);
            a = a OR push_bit 24 (ucast (bits ! 1));
            a = a OR push_bit 16 (ucast (bits ! 2));
            a = a OR push_bit 8 (ucast (bits ! 3));
            a = a OR ucast (bits ! 4)
        in Inr (this\<lparr>m_a := a\<rparr>))"

text \<open>
  The constructor \<open>Address(bits,len)\<close> has no member initialiser: \<open>_a\<close> holds an
  indeterminate value \<open>uninit\<close> when \<open>setTo\<close> is entered.
\<close>

definition Address_bits :: "64 word \<Rightarrow> 8 word list \<Rightarrow> 32 word \<Rightarrow> fault + Address" where
  "Address_bits uninit bits len = setTo bits len \<lparr>m_a = uninit\<rparr>"

definition zero :: "Address \<Rightarrow> Address" where
  "zero this = this\<lparr>m_a := 0\<rparr>"

subsection \<open>Serialisation and queries\<close>

definition copyTo :: "Address \<Rightarrow> 8 word list \<Rightarrow> 32 word \<Rightarrow> fault + 8 word list" where
  "copyTo this bits len =
     (if len < ZT_ADDRESS_LENGTH then Inr bits
      else if length bits < 5 then Inl OutOfBounds
      else Inr (bits[0 := ucast (drop_bit 32 (m_a this) AND 0xff),
                     1 := ucast (drop_bit 24 (m_a this) AND 0xff),
                     2 := ucast (drop_bit 16 (m_a this) AND 0xff),
                     3 := ucast (drop_bit 8 (m_a this) AND 0xff),
                     4 := ucast (m_a this AND 0xff)]))"

definition toInt :: "Address \<Rightarrow> 64 word" where
  "toInt this = m_a this"

text \<open>
  \<open>hashCode\<close> casts \<open>_a\<close> to \<open>unsigned long\<close>, whose width depends on the platform: the
  result type is a word of any length \<open>'w\<close>.
\<close>

definition hashCode :: "Address \<Rightarrow> 'w::len word" where
  "hashCode this = ucast (m_a this)"

definition operator_bool :: "Address \<Rightarrow> bool" where
  "operator_bool this \<longleftrightarrow> m_a this \<noteq> 0"

definition isReserved :: "Address \<Rightarrow> bool" where
  "isReserved this \<longleftrightarrow>
     m_a this = 0 \<or> drop_bit 32 (m_a this) = ZT_ADDRESS_RESERVED_PREFIX"

text \<open>
  \<open>operator[]\<close> computes the shift \<open>32 - (i * 8)\<close> in \<open>unsigned int\<close>, where it wraps
  around; shifting a 64-bit value by 64 or more is undefined.
\<close>

definition operator_index :: "Address \<Rightarrow> 32 word \<Rightarrow> fault + 8 word" where
  "operator_index this i =
     (let sh = 32 - (i * 8)
      in if 64 \<le> unat sh then Inl ShiftTooWide
         else Inr (ucast (drop_bit (unat sh) (m_a this) AND 0xff)))"

subsection \<open>Comparison\<close>

definition operator_eq_u64 :: "Address \<Rightarrow> 64 word \<Rightarrow> bool" where
  "operator_eq_u64 this a \<longleftrightarrow> m_a this = (a AND 0xffffffffff)"

definition operator_ne_u64 :: "Address \<Rightarrow> 64 word \<Rightarrow> bool" where
  "operator_ne_u64 this a \<longleftrightarrow> m_a this \<noteq> (a AND 0xffffffffff)"

definition operator_gt_u64 :: "Address \<Rightarrow> 64 word \<Rightarrow> bool" where
  "operator_gt_u64 this a \<longleftrightarrow> m_a this > (a AND 0xffffffffff)"

definition operator_lt_u64 :: "Address \<Rightarrow> 64 word \<Rightarrow> bool" where
  "operator_lt_u64 this a \<longleftrightarrow> m_a this < (a AND 0xffffffffff)"

definition operator_ge_u64 :: "Address \<Rightarrow> 64 word \<Rightarrow> bool" where
  "operator_ge_u64 this a \<longleftrightarrow> m_a this \<ge> (a AND 0xffffffffff)"

definition operator_le_u64 :: "Address \<Rightarrow> 64 word \<Rightarrow> bool" where
  "operator_le_u64 this a \<longleftrightarrow> m_a this \<le> (a AND 0xffffffffff)"

definition operator_eq :: "Address \<Rightarrow> Address \<Rightarrow> bool" where
  "operator_eq this a \<longleftrightarrow> m_a this = m_a a"

definition operator_ne :: "Address \<Rightarrow> Address \<Rightarrow> bool" where
  "operator_ne this a \<longleftrightarrow> m_a this \<noteq> m_a a"

definition operator_gt :: "Address \<Rightarrow> Address \<Rightarrow> bool" where
  "operator_gt this a \<longleftrightarrow> m_a this > m_a a"

definition operator_lt :: "Address \<Rightarrow> Address \<Rightarrow> bool" where
  "operator_lt this a \<longleftrightarrow> m_a this < m_a a"

definition operator_ge :: "Address \<Rightarrow> Address \<Rightarrow> bool" where
  "operator_ge this a \<longleftrightarrow> m_a this \<ge> m_a a"

definition operator_le :: "Address \<Rightarrow> Address \<Rightarrow> bool" where
  "operator_le this a \<longleftrightarrow> m_a this \<le> m_a a"

subsection \<open>Text rendering\<close>

text \<open>
  \<open>toString\<close> formats \<open>_a\<close> with \<open>"%.10llx"\<close> into a buffer of 16 chars. The conversion
  \<open>x\<close> writes an unsigned value in lowercase hexadecimal; the precision is the least number
  of digits, reached by leading zeros, and the value 0 has no digits of its own.
\<close>

definition hex_digit :: "nat \<Rightarrow> char" where
  "hex_digit d = ''0123456789abcdef'' ! d"

function hex_digits :: "nat \<Rightarrow> string" where
  "hex_digits n = (if n = 0 then [] else hex_digits (n div 16) @ [hex_digit (n mod 16)])"
  by pat_completeness auto
termination
  by (relation "measure id") auto

declare hex_digits.simps [simp del]

definition format_llx :: "nat \<Rightarrow> 64 word \<Rightarrow> string" where
  "format_llx prec v =
     (let ds = hex_digits (unat v) in replicate (prec - length ds) (CHR ''0'') @ ds)"

text \<open>
  Modelled from the spec: \<open>Utils::ztsnprintf\<close> of Utils.hpp, which is not among the
  sources. The spec describes it as a bounded format-into-buffer primitive that truncates
  when the buffer is too small for the formatted text plus the terminator. The value is
  the text left in the buffer of \<open>len\<close> chars, up to the terminator.
\<close>

definition ztsnprintf :: "nat \<Rightarrow> string \<Rightarrow> string" where
  "ztsnprintf len formatted = take (len - 1) formatted"

definition toString :: "Address \<Rightarrow> string" where
  "toString this = ztsnprintf 16 (format_llx 10 (m_a this))"

subsection \<open>The 40-bit invariant\<close>

text \<open>Bits 40 to 63 of the stored value are clear.\<close>

definition addr_inv :: "Address \<Rightarrow> bool" where
  "addr_inv x \<longleftrightarrow> drop_bit 40 (m_a x) = 0"

subsection \<open>The value of five big-endian bytes\<close>

text \<open>The 40-bit value whose big-endian bytes are \<open>b0\<close> to \<open>b4\<close>, most significant first.\<close>

definition pack5 :: "8 word \<Rightarrow> 8 word \<Rightarrow> 8 word \<Rightarrow> 8 word \<Rightarrow> 8 word \<Rightarrow> 64 word" where
  "pack5 b0 b1 b2 b3 b4 =
     (((push_bit 32 (ucast b0) OR push_bit 24 (ucast b1)) OR push_bit 16 (ucast b2))
        OR push_bit 8 (ucast b3)) OR ucast b4"

section \<open>Word lemmas\<close>

lemma mask40_eq: "(0xffffffffff :: 64 word) = mask 40"
  by (simp add: mask_eq_exp_minus_1)

lemma mask8_eq: "(0xff :: 64 word) = mask 8"
  by (simp add: mask_eq_exp_minus_1)

lemma hi_clear_iff_mask: "drop_bit 40 (w :: 64 word) = 0 \<longleftrightarrow> w AND 0xffffffffff = w"
  by (simp add: mask40_eq take_bit_eq_self_iff_drop_bit_eq_0 flip: take_bit_eq_mask)

lemma hi_clear_iff_less: "drop_bit 40 (w :: 64 word) = 0 \<longleftrightarrow> w < 2 ^ 40"
  unfolding hi_clear_iff_mask mask40_eq
  by (rule mask_eq_iff_w2p) (simp add: word_size)

lemma hi_clear_masked: "drop_bit 40 ((v :: 64 word) AND 0xffffffffff) = 0"
  by (simp add: mask40_eq drop_bit_take_bit flip: take_bit_eq_mask)

lemma hi_clear_bit: "drop_bit 40 (w :: 64 word) = 0 \<Longrightarrow> 40 \<le> n \<Longrightarrow> \<not> bit w n"
proof
  assume z: "drop_bit 40 w = 0" and n: "40 \<le> n" and b: "bit w n"
  have "bit (drop_bit 40 w) (n - 40)"
    using n b by (simp add: bit_drop_bit_eq)
  with z show False by simp
qed

lemma Address_update: "this\<lparr>m_a := x\<rparr> = \<lparr>m_a = x\<rparr>"
  by (cases this) simp

lemma hi_clear_pack5: "drop_bit 40 (pack5 b0 b1 b2 b3 b4) = 0"
  unfolding pack5_def
  by (rule bit_word_eqI) (auto simp add: bit_simps dest: bit_imp_le_length)

lemma unpack0: "ucast (drop_bit 32 (pack5 b0 b1 b2 b3 b4) AND 0xff) = b0"
  unfolding pack5_def mask8_eq
  by (rule bit_word_eqI) (auto simp add: bit_simps dest: bit_imp_le_length)

lemma unpack1: "ucast (drop_bit 24 (pack5 b0 b1 b2 b3 b4) AND 0xff) = b1"
  unfolding pack5_def mask8_eq
  by (rule bit_word_eqI) (auto simp add: bit_simps dest: bit_imp_le_length)

lemma unpack2: "ucast (drop_bit 16 (pack5 b0 b1 b2 b3 b4) AND 0xff) = b2"
  unfolding pack5_def mask8_eq
  by (rule bit_word_eqI) (auto simp add: bit_simps dest: bit_imp_le_length)

lemma unpack3: "ucast (drop_bit 8 (pack5 b0 b1 b2 b3 b4) AND 0xff) = b3"
  unfolding pack5_def mask8_eq
  by (rule bit_word_eqI) (auto simp add: bit_simps dest: bit_imp_le_length)

lemma unpack4: "ucast ((pack5 b0 b1 b2 b3 b4) AND 0xff) = b4"
  unfolding pack5_def mask8_eq
  by (rule bit_word_eqI) (auto simp add: bit_simps dest: bit_imp_le_length)

lemma repack:
  assumes "drop_bit 40 (w :: 64 word) = 0"
  shows "pack5 (ucast (drop_bit 32 w AND 0xff)) (ucast (drop_bit 24 w AND 0xff))
     (ucast (drop_bit 16 w AND 0xff)) (ucast (drop_bit 8 w AND 0xff)) (ucast (w AND 0xff)) = w"
proof (rule bit_word_eqI)
  fix n assume "n < LENGTH(64)"
  have hi: "\<not> bit w m" if "40 \<le> m" for m
    using hi_clear_bit [OF assms that] .
  show "bit (pack5 (ucast (drop_bit 32 w AND 0xff)) (ucast (drop_bit 24 w AND 0xff))
     (ucast (drop_bit 16 w AND 0xff)) (ucast (drop_bit 8 w AND 0xff)) (ucast (w AND 0xff))) n = bit w n"
    unfolding pack5_def mask8_eq
    using hi [of n]
    by (cases "n < 8"; cases "n < 16"; cases "n < 24"; cases "n < 32"; cases "n < 40")
       (auto simp add: bit_simps)
qed

section \<open>What setTo and copyTo compute\<close>

lemma setTo_pack5:
  "setTo [b0, b1, b2, b3, b4] 5 this = Inr \<lparr>m_a = pack5 b0 b1 b2 b3 b4\<rparr>"
  by (simp add: setTo_def ZT_ADDRESS_LENGTH_def pack5_def Let_def Address_update)

lemma setTo_long:
  assumes "\<not> len < 5" "5 \<le> length bits"
  shows "setTo bits len this = Inr \<lparr>m_a = pack5 (bits ! 0) (bits ! 1) (bits ! 2) (bits ! 3) (bits ! 4)\<rparr>"
  using assms by (simp add: setTo_def ZT_ADDRESS_LENGTH_def pack5_def Let_def Address_update)

lemma setTo_short:
  assumes "len < 5"
  shows "setTo bits len this = Inr \<lparr>m_a = 0\<rparr>"
  using assms by (simp add: setTo_def ZT_ADDRESS_LENGTH_def Address_update)

lemma copyTo_long:
  assumes "\<not> len < 5" "5 \<le> length bits"
  shows "copyTo this bits len = Inr ([ucast (drop_bit 32 (m_a this) AND 0xff),
                     ucast (drop_bit 24 (m_a this) AND 0xff),
                     ucast (drop_bit 16 (m_a this) AND 0xff),
                     ucast (drop_bit 8 (m_a this) AND 0xff),
                     ucast (m_a this AND 0xff)] @ drop 5 bits)"
proof -
  obtain c0 c1 c2 c3 c4 cs where "bits = c0 # c1 # c2 # c3 # c4 # cs"
    using assms(2) by (auto simp: numeral_eq_Suc Suc_le_length_iff)
  then show ?thesis using assms(1)
    by (simp add: copyTo_def ZT_ADDRESS_LENGTH_def)
qed

lemma len_honest:
  "\<not> len < (5 :: 32 word) \<Longrightarrow> unat len \<le> length (bits :: 8 word list) \<Longrightarrow> 5 \<le> length bits"
  by (simp add: word_less_nat_alt)

lemma addr_inv_pack5: "addr_inv \<lparr>m_a = pack5 b0 b1 b2 b3 b4\<rparr>"
  by (simp add: addr_inv_def hi_clear_pack5)

lemma addr_inv_repack:
  "addr_inv a \<Longrightarrow>
   \<lparr>m_a = pack5 (ucast (drop_bit 32 (m_a a) AND 0xff)) (ucast (drop_bit 24 (m_a a) AND 0xff))
     (ucast (drop_bit 16 (m_a a) AND 0xff)) (ucast (drop_bit 8 (m_a a) AND 0xff))
     (ucast (m_a a AND 0xff))\<rparr> = a"
  by (simp add: addr_inv_def repack)

lemma five_bytes:
  assumes "length (b :: 8 word list) = 5"
  shows "b = [b ! 0, b ! 1, b ! 2, b ! 3, b ! 4]"
proof -
  obtain c0 c1 c2 c3 c4 where "b = [c0, c1, c2, c3, c4]"
    using assms by (auto simp: numeral_eq_Suc length_Suc_conv)
  then show ?thesis by simp
qed

lemma Address_u64_example: "Address_u64 0x0123456789 = \<lparr>m_a = 0x0123456789\<rparr>"
  by (simp add: Address_u64_def)

lemma addr_inv_less: "addr_inv a \<longleftrightarrow> m_a a < 2 ^ 40"
  by (simp add: addr_inv_def hi_clear_iff_less)

lemma setTo_total:
  "len < 5 \<or> 5 \<le> length bits \<Longrightarrow> \<exists>x. setTo bits len this = Inr x"
  by (cases "len < 5") (auto simp add: setTo_short setTo_long)

lemma setTo_inv: "setTo bits len this = Inr x \<Longrightarrow> addr_inv x"
proof (cases "len < 5")
  case True
  assume "setTo bits len this = Inr x"
  then have "x = \<lparr>m_a = 0\<rparr>"
    by (simp add: setTo_short [OF True])
  then show ?thesis by (simp add: addr_inv_def)
next
  case False
  assume r: "setTo bits len this = Inr x"
  then have l: "5 \<le> length bits"
    using False by (auto simp add: setTo_def ZT_ADDRESS_LENGTH_def split: if_splits)
  from r have "x = \<lparr>m_a = pack5 (bits ! 0) (bits ! 1) (bits ! 2) (bits ! 3) (bits ! 4)\<rparr>"
    by (simp add: setTo_long [OF False l])
  then show ?thesis by (simp add: addr_inv_pack5)
qed

lemma top_byte_small:
  assumes "drop_bit 40 (w :: 64 word) = 0"
  shows "drop_bit 32 w AND 0xff = drop_bit 32 w"
  unfolding mask8_eq
proof (rule bit_word_eqI)
  fix n assume "n < LENGTH(64)"
  show "bit (drop_bit 32 w AND mask 8) n = bit (drop_bit 32 w) n"
    using hi_clear_bit [OF assms, of "32 + n"]
    by (cases "n < 8") (auto simp add: bit_simps)
qed

lemma unat_byte:
  "unat (ucast (drop_bit k (w :: 64 word) AND 0xff) :: 8 word) = unat w div 2 ^ k mod 256"
proof -
  have "unat (ucast (drop_bit k w AND 0xff) :: 8 word) = take_bit 8 (unat (take_bit 8 (drop_bit k w)))"
    by (simp add: mask8_eq unsigned_ucast_eq flip: take_bit_eq_mask)
  also have "\<dots> = take_bit 8 (drop_bit k (unat w))"
    by (simp add: unsigned_take_bit_eq unat_drop_bit_eq)
  finally show ?thesis
    by (simp add: take_bit_eq_mod drop_bit_eq_div)
qed

lemma unat_byte0:
  "unat (ucast ((w :: 64 word) AND 0xff) :: 8 word) = unat w mod 256"
  using unat_byte [of 0 w] by simp

lemma index_cases:
  assumes "(i :: 32 word) \<le> 4"
  shows "i = 0 \<or> i = 1 \<or> i = 2 \<or> i = 3 \<or> i = 4"
proof -
  have "unat i \<le> 4"
    using assms by (simp add: word_le_nat_alt)
  then have "unat i = 0 \<or> unat i = 1 \<or> unat i = 2 \<or> unat i = 3 \<or> unat i = 4"
    by arith
  then show ?thesis
    by (auto simp add: word_unat_eq_iff)
qed

lemma operator_index_values:
  "operator_index a 0 = Inr (ucast (drop_bit 32 (m_a a) AND 0xff))"
  "operator_index a 1 = Inr (ucast (drop_bit 24 (m_a a) AND 0xff))"
  "operator_index a 2 = Inr (ucast (drop_bit 16 (m_a a) AND 0xff))"
  "operator_index a 3 = Inr (ucast (drop_bit 8 (m_a a) AND 0xff))"
  "operator_index a 4 = Inr (ucast (drop_bit 0 (m_a a) AND 0xff))"
  by (simp_all add: operator_index_def Let_def)

section \<open>What toString renders\<close>

lemma hex_digits_0: "hex_digits 0 = []"
  by (subst hex_digits.simps) simp

lemma hex_digits_pos: "0 < n \<Longrightarrow> hex_digits n = hex_digits (n div 16) @ [hex_digit (n mod 16)]"
  by (subst hex_digits.simps) simp

lemma hex_digit_0: "hex_digit 0 = CHR ''0''"
  by (simp add: hex_digit_def)

text \<open>Padding the digits of \<open>n < 16 ^ k\<close> to \<open>k\<close> places gives the \<open>k\<close> nibbles of \<open>n\<close>.\<close>

lemma padded_hex_digits:
  "n < 16 ^ k \<Longrightarrow>
   replicate (k - length (hex_digits n)) (CHR ''0'') @ hex_digits n
     = map (\<lambda>i. hex_digit (n div 16 ^ (k - 1 - i) mod 16)) [0..<k]"
proof (induction k arbitrary: n)
  case 0
  then show ?case by (simp add: hex_digits_0)
next
  case (Suc k)
  show ?case
  proof (cases "n = 0")
    case True
    then show ?thesis
      by (simp add: hex_digits_0 hex_digit_0 map_replicate_const del: replicate_Suc upt_Suc)
  next
    case False
    then have pos: "0 < n" by simp
    have small: "n div 16 < 16 ^ k"
      using Suc.prems by (simp add: less_mult_imp_div_less mult.commute)
    have ih: "replicate (k - length (hex_digits (n div 16))) (CHR ''0'') @ hex_digits (n div 16)
        = map (\<lambda>i. hex_digit (n div 16 div 16 ^ (k - 1 - i) mod 16)) [0..<k]"
      by (rule Suc.IH [OF small])
    have shift: "n div 16 div 16 ^ (k - 1 - i) = n div 16 ^ (Suc k - 1 - i)" if "i < k" for i
    proof -
      have "Suc k - 1 - i = Suc (k - 1 - i)"
        using that by simp
      then show ?thesis
        by (simp add: div_mult2_eq)
    qed
    have "replicate (Suc k - length (hex_digits n)) (CHR ''0'') @ hex_digits n
        = (replicate (k - length (hex_digits (n div 16))) (CHR ''0'') @ hex_digits (n div 16))
            @ [hex_digit (n mod 16)]"
      by (simp add: hex_digits_pos [OF pos])
    also have "\<dots> = map (\<lambda>i. hex_digit (n div 16 ^ (Suc k - 1 - i) mod 16)) [0..<k]
            @ [hex_digit (n mod 16)]"
      unfolding ih using shift by simp
    also have "\<dots> = map (\<lambda>i. hex_digit (n div 16 ^ (Suc k - 1 - i) mod 16)) [0..<Suc k]"
      by simp
    finally show ?thesis .
  qed
qed

lemma hex_digit_lower: "d < 16 \<Longrightarrow> hex_digit d \<in> set ''0123456789abcdef''"
  unfolding hex_digit_def by (rule nth_mem) simp

lemma toString_nibbles:
  assumes "addr_inv a"
  shows "toString a = map (\<lambda>i. hex_digit (unat (toInt a) div 16 ^ (9 - i) mod 16)) [0..<10]"
proof -
  have "unat (m_a a) < unat (2 ^ 40 :: 64 word)"
    using assms unfolding addr_inv_def hi_clear_iff_less word_less_nat_alt .
  then have "unat (m_a a) < 16 ^ 10"
    by simp
  then have "format_llx 10 (m_a a)
      = map (\<lambda>i. hex_digit (unat (m_a a) div 16 ^ (10 - 1 - i) mod 16)) [0..<10]"
    unfolding format_llx_def Let_def by (rule padded_hex_digits)
  then show ?thesis
    by (simp add: toString_def ztsnprintf_def toInt_def)
qed

section \<open>Claims\<close>

text \<open>
  C1. Round trip. For an address \<open>a\<close> whose value is below \<open>2 ^ 40\<close>, \<open>copyTo\<close> into a buffer
  whose declared length is at least 5 (and is not more than what is allocated) succeeds,
  and parsing the written bytes with \<open>setTo\<close> or the constructor gives an address equal to
  \<open>a\<close>. Conversely, for every sequence \<open>b\<close> of 5 bytes, parsing \<open>b\<close> and serialising the result
  with \<open>copyTo\<close> writes exactly the bytes of \<open>b\<close>.
\<close>

theorem roundtrip:
  "(addr_inv a \<and> \<not> len < 5 \<and> unat len \<le> length buf \<longrightarrow>
      (\<exists>buf'. copyTo a buf len = Inr buf' \<and>
         (\<exists>x. setTo buf' len this = Inr x \<and> x = a \<and> operator_eq x a) \<and>
         (\<exists>x. Address_bits uninit buf' len = Inr x \<and> x = a \<and> operator_eq x a)))
   \<and> (length b = 5 \<and> \<not> len < 5 \<and> unat len \<le> length buf \<longrightarrow>
      (\<exists>x. Address_bits uninit b 5 = Inr x \<and> copyTo x buf len = Inr (b @ drop 5 buf)))"
proof (intro conjI impI)
  assume h: "addr_inv a \<and> \<not> len < 5 \<and> unat len \<le> length buf"
  then have n: "\<not> len < 5" and l: "5 \<le> length buf" and i: "addr_inv a"
    by (auto intro: len_honest)
  let ?buf' = "[ucast (drop_bit 32 (m_a a) AND 0xff), ucast (drop_bit 24 (m_a a) AND 0xff),
     ucast (drop_bit 16 (m_a a) AND 0xff), ucast (drop_bit 8 (m_a a) AND 0xff),
     ucast (m_a a AND 0xff)] @ drop 5 buf"
  have c: "copyTo a buf len = Inr ?buf'"
    by (rule copyTo_long [OF n l])
  have s: "setTo ?buf' len t = Inr a" for t
    using addr_inv_repack [OF i] by (simp add: setTo_long [OF n])
  show "\<exists>buf'. copyTo a buf len = Inr buf' \<and>
         (\<exists>x. setTo buf' len this = Inr x \<and> x = a \<and> operator_eq x a) \<and>
         (\<exists>x. Address_bits uninit buf' len = Inr x \<and> x = a \<and> operator_eq x a)"
    unfolding c Address_bits_def using s by (simp add: operator_eq_def)
next
  assume h: "length b = 5 \<and> \<not> len < 5 \<and> unat len \<le> length buf"
  then have n: "\<not> len < 5" and l: "5 \<le> length buf" and b: "length b = 5"
    by (auto intro: len_honest)
  have p: "Address_bits uninit b 5 = Inr \<lparr>m_a = pack5 (b ! 0) (b ! 1) (b ! 2) (b ! 3) (b ! 4)\<rparr>"
    unfolding Address_bits_def using b by (simp add: setTo_long)
  have "copyTo \<lparr>m_a = pack5 (b ! 0) (b ! 1) (b ! 2) (b ! 3) (b ! 4)\<rparr> buf len
          = Inr ([b ! 0, b ! 1, b ! 2, b ! 3, b ! 4] @ drop 5 buf)"
    by (simp add: copyTo_long [OF n l] unpack0 unpack1 unpack2 unpack3 unpack4)
  then have "copyTo \<lparr>m_a = pack5 (b ! 0) (b ! 1) (b ! 2) (b ! 3) (b ! 4)\<rparr> buf len
          = Inr (b @ drop 5 buf)"
    using five_bytes [OF b] by simp
  with p show "\<exists>x. Address_bits uninit b 5 = Inr x \<and> copyTo x buf len = Inr (b @ drop 5 buf)"
    by simp
qed

theorem roundtrip_witness:
  "addr_inv (Address_u64 0x0123456789) \<and> \<not> (5 :: 32 word) < 5 \<and> unat (5 :: 32 word) \<le> length [0, 0, 0, 0, 0, 7 :: 8 word]
   \<and> length [0x01, 0x23, 0x45, 0x67, 0x89 :: 8 word] = 5
   \<and> copyTo (Address_u64 0x0123456789) [0, 0, 0, 0, 0, 7] 5 = Inr [0x01, 0x23, 0x45, 0x67, 0x89, 7]
   \<and> setTo [0x01, 0x23, 0x45, 0x67, 0x89, 7] 5 Address_default = Inr (Address_u64 0x0123456789)
   \<and> Address_bits 0 [0x01, 0x23, 0x45, 0x67, 0x89] 5 = Inr (Address_u64 0x0123456789)"
  using roundtrip [of "Address_u64 0x0123456789" 5 "[0, 0, 0, 0, 0, 7]" Address_default 0
      "[0x01, 0x23, 0x45, 0x67, 0x89]"]
  by (simp add: Address_u64_example addr_inv_def copyTo_def setTo_def Address_bits_def
      ZT_ADDRESS_LENGTH_def Address_default_def)

text \<open>
  C2. Masking invariant. Construction and assignment from a 64-bit integer \<open>v\<close> store
  \<open>v AND 0xffffffffff\<close>. Every construction and assignment path (default, copy, copy
  assignment, 64-bit integer, \<open>setTo\<close> and the constructor from bytes whenever they return,
  which they do when the declared length is below 5 or within the allocation, and \<open>zero\<close>)
  gives an address with bits 40 to 63 clear, from arguments that have them clear; the value
  \<open>toInt\<close> returns for such an address is at most \<open>2 ^ 40 - 1\<close>.
\<close>

theorem masking_invariant:
  "toInt (Address_u64 v) = v AND 0xffffffffff
   \<and> toInt (operator_assign_u64 this v) = v AND 0xffffffffff
   \<and> addr_inv Address_default
   \<and> (addr_inv a \<longrightarrow> addr_inv (Address_copy a))
   \<and> (addr_inv a \<longrightarrow> addr_inv (operator_assign this a))
   \<and> addr_inv (Address_u64 v)
   \<and> addr_inv (operator_assign_u64 this v)
   \<and> (len < 5 \<or> unat len \<le> length bits \<longrightarrow>
        (\<exists>x. setTo bits len this = Inr x \<and> addr_inv x)
        \<and> (\<exists>x. Address_bits uninit bits len = Inr x \<and> addr_inv x))
   \<and> addr_inv (zero this)
   \<and> (addr_inv a \<longrightarrow> unat (toInt a) \<le> 2 ^ 40 - 1)"
proof (intro conjI impI)
  show "toInt (Address_u64 v) = v AND 0xffffffffff"
    by (simp add: toInt_def Address_u64_def)
  show "toInt (operator_assign_u64 this v) = v AND 0xffffffffff"
    by (simp add: toInt_def operator_assign_u64_def)
  show "addr_inv Address_default"
    by (simp add: addr_inv_def Address_default_def)
  show "addr_inv (Address_copy a)" if "addr_inv a"
    using that by (simp add: addr_inv_def Address_copy_def)
  show "addr_inv (operator_assign this a)" if "addr_inv a"
    using that by (simp add: addr_inv_def operator_assign_def)
  show "addr_inv (Address_u64 v)"
    by (simp add: addr_inv_def Address_u64_def hi_clear_masked)
  show "addr_inv (operator_assign_u64 this v)"
    by (simp add: addr_inv_def operator_assign_u64_def hi_clear_masked)
  show "addr_inv (zero this)"
    by (simp add: addr_inv_def zero_def)
next
  assume "len < 5 \<or> unat len \<le> length bits"
  then have t: "len < 5 \<or> 5 \<le> length bits"
    using len_honest by blast
  show "\<exists>x. setTo bits len this = Inr x \<and> addr_inv x"
    using setTo_total [OF t] setTo_inv by blast
  show "\<exists>x. Address_bits uninit bits len = Inr x \<and> addr_inv x"
    unfolding Address_bits_def using setTo_total [OF t] setTo_inv by blast
next
  assume i: "addr_inv a"
  have "unat (m_a a) < unat (2 ^ 40 :: 64 word)"
    using i unfolding addr_inv_less word_less_nat_alt .
  then show "unat (toInt a) \<le> 2 ^ 40 - 1"
    by (simp add: toInt_def)
qed

theorem masking_invariant_witness:
  "addr_inv (Address_u64 0xffffffffffffffff)
   \<and> addr_inv (Address_copy (Address_u64 0xffffffffffffffff))
   \<and> addr_inv (operator_assign Address_default (Address_u64 0xffffffffffffffff))
   \<and> unat (5 :: 32 word) \<le> length [0xff, 0xff, 0xff, 0xff, 0xff :: 8 word]
   \<and> setTo [0xff, 0xff, 0xff, 0xff, 0xff] 5 Address_default = Inr \<lparr>m_a = 0xffffffffff\<rparr>
   \<and> addr_inv \<lparr>m_a = 0xffffffffff\<rparr>
   \<and> toInt (Address_u64 0xffffffffffffffff) = 0xffffffffff
   \<and> unat (toInt (Address_u64 0xffffffffffffffff)) \<le> 2 ^ 40 - 1"
  using masking_invariant [of "0xffffffffffffffff" Address_default "Address_u64 0xffffffffffffffff"
      5 "[0xff, 0xff, 0xff, 0xff, 0xff]" 0]
  by (simp add: setTo_pack5 pack5_def Address_default_def Address_u64_def addr_inv_def toInt_def)

text \<open>
  C3. Reserved check. For an address with bits 40 to 63 clear, \<open>isReserved\<close> is true exactly
  when the value is zero or its most significant byte (bits 32 to 39) is the reserved
  prefix. \<open>Address(0xFF0000000000).isReserved()\<close> is true (the argument has its low 40 bits
  clear, so the address is null) and \<open>Address(0x1200000000).isReserved()\<close> is false.
\<close>

theorem reserved_check:
  "(addr_inv a \<longrightarrow>
      isReserved a = (toInt a = 0 \<or> drop_bit 32 (toInt a) AND 0xff = ZT_ADDRESS_RESERVED_PREFIX))
   \<and> isReserved (Address_u64 0xFF0000000000) = True
   \<and> isReserved (Address_u64 0x1200000000) = False"
proof (intro conjI impI)
  assume "addr_inv a"
  then have "drop_bit 32 (m_a a) AND 0xff = drop_bit 32 (m_a a)"
    by (simp add: addr_inv_def top_byte_small)
  then show "isReserved a = (toInt a = 0 \<or> drop_bit 32 (toInt a) AND 0xff = ZT_ADDRESS_RESERVED_PREFIX)"
    by (simp add: isReserved_def toInt_def)
next
  show "isReserved (Address_u64 0xFF0000000000) = True"
    by (simp add: isReserved_def Address_u64_def)
  show "isReserved (Address_u64 0x1200000000) = False"
    by (simp add: isReserved_def Address_u64_def ZT_ADDRESS_RESERVED_PREFIX_def)
qed

theorem reserved_check_witness:
  "addr_inv (Address_u64 0xff12345678) \<and> isReserved (Address_u64 0xff12345678)
   \<and> toInt (Address_u64 0xff12345678) \<noteq> 0
   \<and> drop_bit 32 (toInt (Address_u64 0xff12345678)) AND 0xff = ZT_ADDRESS_RESERVED_PREFIX"
  using reserved_check [of "Address_u64 0xff12345678"]
  by (simp add: addr_inv_def Address_u64_def toInt_def ZT_ADDRESS_RESERVED_PREFIX_def)

text \<open>
  C4. Undersized parse. For every byte sequence and every declared length below 5, the
  constructor from bytes and \<open>setTo\<close> return the null address, whose \<open>toInt\<close> is 0, whatever
  the bytes are, and no fault occurs.
\<close>

theorem undersized_parse:
  "len < 5 \<Longrightarrow>
     (\<exists>x. Address_bits uninit bits len = Inr x \<and> toInt x = 0 \<and> x = Address_default)
     \<and> (\<exists>x. setTo bits len this = Inr x \<and> toInt x = 0 \<and> x = Address_default)"
  by (simp add: Address_bits_def setTo_short toInt_def Address_default_def)

theorem undersized_parse_witness:
  "(3 :: 32 word) < 5
   \<and> Address_bits 0xdeadbeefdeadbeef [0xaa, 0xbb, 0xcc] 3 = Inr Address_default
   \<and> setTo [0xaa, 0xbb, 0xcc, 0xdd, 0xee] 4 (Address_u64 77) = Inr Address_default
   \<and> toInt Address_default = 0"
  using undersized_parse [of 3 "0xdeadbeefdeadbeef" "[0xaa, 0xbb, 0xcc]" "Address_u64 77"]
    undersized_parse [of 4 0 "[0xaa, 0xbb, 0xcc, 0xdd, 0xee]" "Address_u64 77"]
  by (simp add: toInt_def Address_default_def)

text \<open>
  C5. Frame condition of \<open>copyTo\<close>. With a declared length below 5 the destination is
  returned unchanged. With a declared length of at least 5 (and not more than what is
  allocated) the result has the length of the destination, its first 5 bytes are the
  bytes of the value, most significant first, and everything from position 5 on is
  unchanged.
\<close>

theorem copyTo_frame:
  "(len < 5 \<longrightarrow> copyTo a buf len = Inr buf)
   \<and> (\<not> len < 5 \<and> unat len \<le> length buf \<longrightarrow>
        (\<exists>buf'. copyTo a buf len = Inr buf'
           \<and> length buf' = length buf
           \<and> take 5 buf' = [ucast (drop_bit 32 (toInt a) AND 0xff),
                             ucast (drop_bit 24 (toInt a) AND 0xff),
                             ucast (drop_bit 16 (toInt a) AND 0xff),
                             ucast (drop_bit 8 (toInt a) AND 0xff),
                             ucast (toInt a AND 0xff)]
           \<and> map unat (take 5 buf') = map (\<lambda>i. unat (toInt a) div 256 ^ (4 - i) mod 256) [0, 1, 2, 3, 4]
           \<and> drop 5 buf' = drop 5 buf))"
proof (intro conjI impI)
  assume "len < 5"
  then show "copyTo a buf len = Inr buf"
    by (simp add: copyTo_def ZT_ADDRESS_LENGTH_def)
next
  assume "\<not> len < 5 \<and> unat len \<le> length buf"
  then have n: "\<not> len < 5" and l: "5 \<le> length buf"
    by (auto intro: len_honest)
  have p: "unat (toInt a) div 256 ^ 4 = unat (toInt a) div 2 ^ 32"
    "unat (toInt a) div 256 ^ 3 = unat (toInt a) div 2 ^ 24"
    "unat (toInt a) div 256 ^ 2 = unat (toInt a) div 2 ^ 16"
    "unat (toInt a) div 256 = unat (toInt a) div 2 ^ 8"
    by simp_all
  let ?buf' = "[ucast (drop_bit 32 (m_a a) AND 0xff), ucast (drop_bit 24 (m_a a) AND 0xff),
     ucast (drop_bit 16 (m_a a) AND 0xff), ucast (drop_bit 8 (m_a a) AND 0xff),
     ucast (m_a a AND 0xff)] @ drop 5 buf"
  have c: "copyTo a buf len = Inr ?buf'"
    by (rule copyTo_long [OF n l])
  have len: "length ?buf' = length buf"
    using l by simp
  have tk: "take 5 ?buf' = [ucast (drop_bit 32 (toInt a) AND 0xff),
                             ucast (drop_bit 24 (toInt a) AND 0xff),
                             ucast (drop_bit 16 (toInt a) AND 0xff),
                             ucast (drop_bit 8 (toInt a) AND 0xff),
                             ucast (toInt a AND 0xff)]"
    by (simp add: toInt_def)
  have vals: "map unat (take 5 ?buf')
      = map (\<lambda>i. unat (toInt a) div 256 ^ (4 - i) mod 256) [0, 1, 2, 3, 4]"
    unfolding tk
    using unat_byte [of 32 "toInt a"] unat_byte [of 24 "toInt a"] unat_byte [of 16 "toInt a"]
      unat_byte [of 8 "toInt a"] unat_byte0 [of "toInt a"]
    by (simp add: p del: power_numeral)
  have dr: "drop 5 ?buf' = drop 5 buf"
    by simp
  show "\<exists>buf'. copyTo a buf len = Inr buf'
           \<and> length buf' = length buf
           \<and> take 5 buf' = [ucast (drop_bit 32 (toInt a) AND 0xff),
                             ucast (drop_bit 24 (toInt a) AND 0xff),
                             ucast (drop_bit 16 (toInt a) AND 0xff),
                             ucast (drop_bit 8 (toInt a) AND 0xff),
                             ucast (toInt a AND 0xff)]
           \<and> map unat (take 5 buf') = map (\<lambda>i. unat (toInt a) div 256 ^ (4 - i) mod 256) [0, 1, 2, 3, 4]
           \<and> drop 5 buf' = drop 5 buf"
    using c len tk vals dr by blast
qed

theorem copyTo_frame_witness:
  "(4 :: 32 word) < 5
   \<and> copyTo (Address_u64 0x0123456789) [9, 9, 9, 9, 9, 9, 9] 4 = Inr [9, 9, 9, 9, 9, 9, 9]
   \<and> \<not> (6 :: 32 word) < 5 \<and> unat (6 :: 32 word) \<le> length [9, 9, 9, 9, 9, 9, 9 :: 8 word]
   \<and> copyTo (Address_u64 0x0123456789) [9, 9, 9, 9, 9, 9, 9] 6
       = Inr [0x01, 0x23, 0x45, 0x67, 0x89, 9, 9]"
  using copyTo_frame [of 4 "Address_u64 0x0123456789" "[9, 9, 9, 9, 9, 9, 9]"]
    copyTo_frame [of 6 "Address_u64 0x0123456789" "[9, 9, 9, 9, 9, 9, 9]"]
  by (simp add: copyTo_def ZT_ADDRESS_LENGTH_def Address_u64_example toInt_def)

text \<open>
  C6. Total order. Exactly one of \<open>a < b\<close>, \<open>a == b\<close>, \<open>a > b\<close> holds; \<open>a <= b\<close> holds iff
  \<open>a < b\<close> or \<open>a == b\<close>; the six operators on two addresses are the unsigned comparisons of
  their values; with a 64-bit integer \<open>v\<close> on the right, each operator compares the value
  of \<open>a\<close> with \<open>v AND 0xffffffffff\<close>.
\<close>

theorem total_order:
  "((operator_lt a b \<and> \<not> operator_eq a b \<and> \<not> operator_gt a b)
      \<or> (\<not> operator_lt a b \<and> operator_eq a b \<and> \<not> operator_gt a b)
      \<or> (\<not> operator_lt a b \<and> \<not> operator_eq a b \<and> operator_gt a b))
   \<and> operator_le a b = (operator_lt a b \<or> operator_eq a b)
   \<and> operator_eq a b = (unat (toInt a) = unat (toInt b))
   \<and> operator_ne a b = (unat (toInt a) \<noteq> unat (toInt b))
   \<and> operator_lt a b = (unat (toInt a) < unat (toInt b))
   \<and> operator_gt a b = (unat (toInt a) > unat (toInt b))
   \<and> operator_le a b = (unat (toInt a) \<le> unat (toInt b))
   \<and> operator_ge a b = (unat (toInt a) \<ge> unat (toInt b))
   \<and> operator_eq_u64 a v = (unat (toInt a) = unat (v AND 0xffffffffff))
   \<and> operator_ne_u64 a v = (unat (toInt a) \<noteq> unat (v AND 0xffffffffff))
   \<and> operator_lt_u64 a v = (unat (toInt a) < unat (v AND 0xffffffffff))
   \<and> operator_gt_u64 a v = (unat (toInt a) > unat (v AND 0xffffffffff))
   \<and> operator_le_u64 a v = (unat (toInt a) \<le> unat (v AND 0xffffffffff))
   \<and> operator_ge_u64 a v = (unat (toInt a) \<ge> unat (v AND 0xffffffffff))"
  unfolding operator_lt_def operator_eq_def operator_gt_def operator_le_def operator_ne_def
    operator_ge_def operator_lt_u64_def operator_eq_u64_def operator_gt_u64_def
    operator_le_u64_def operator_ne_u64_def operator_ge_u64_def toInt_def
    word_less_nat_alt word_le_nat_alt word_unat_eq_iff
  by (intro conjI) linarith+

text \<open>
  C7. Hex rendering. For an address with bits 40 to 63 clear, \<open>toString\<close> is a string of
  exactly 10 characters, all of them lowercase hexadecimal digits, and its \<open>i\<close>-th character
  is the digit of the \<open>i\<close>-th most significant nibble of the 40-bit value; the null address
  renders as \<open>0000000000\<close> and \<open>Address(0x0123456789)\<close> as \<open>0123456789\<close>.
\<close>

theorem hex_rendering:
  "(addr_inv a \<longrightarrow>
      length (toString a) = 10
      \<and> set (toString a) \<subseteq> set ''0123456789abcdef''
      \<and> toString a = map (\<lambda>i. hex_digit (unat (toInt a) div 16 ^ (9 - i) mod 16)) [0..<10])
   \<and> toString Address_default = ''0000000000''
   \<and> toString (Address_u64 0x0123456789) = ''0123456789''"
proof (intro conjI impI)
  assume i: "addr_inv a"
  show n: "toString a = map (\<lambda>i. hex_digit (unat (toInt a) div 16 ^ (9 - i) mod 16)) [0..<10]"
    by (rule toString_nibbles [OF i])
  show "length (toString a) = 10"
    unfolding n by simp
  show "set (toString a) \<subseteq> set ''0123456789abcdef''"
    unfolding n set_map using hex_digit_lower by (auto simp del: set_simps)
next
  show "toString Address_default = ''0000000000''"
    by (simp add: toString_def ztsnprintf_def format_llx_def Address_default_def hex_digits_0
        numeral_eq_Suc)
  show "toString (Address_u64 0x0123456789) = ''0123456789''"
    using toString_nibbles [of "Address_u64 0x0123456789"]
    by (simp add: addr_inv_def Address_u64_def toInt_def upt_rec hex_digit_def)
qed

theorem hex_rendering_witness:
  "addr_inv (Address_u64 0xabcdef0123) \<and> toString (Address_u64 0xabcdef0123) = ''abcdef0123''
   \<and> length (toString (Address_u64 0xabcdef0123)) = 10"
  using hex_rendering [of "Address_u64 0xabcdef0123"]
  by (simp add: addr_inv_def Address_u64_def toInt_def upt_rec hex_digit_def)

text \<open>
  C8. Byte indexing. For every index \<open>i\<close> from 0 to 4, \<open>a[i]\<close> is defined and equals
  \<open>(a.toInt() >> (32 - 8 * i)) & 0xff\<close>, the \<open>i\<close>-th most significant of the 5 big-endian
  bytes (the byte \<open>copyTo\<close> writes at position \<open>i\<close>); \<open>Address(0x0102030405)[0]\<close> is \<open>0x01\<close> and
  \<open>Address(0x0102030405)[4]\<close> is \<open>0x05\<close>.
\<close>

theorem byte_indexing:
  "(i \<le> 4 \<longrightarrow>
      (\<exists>y. operator_index a i = Inr y
         \<and> y = ucast (drop_bit (32 - 8 * unat i) (toInt a) AND 0xff)
         \<and> unat y = unat (toInt a) div 256 ^ (4 - unat i) mod 256
         \<and> (\<forall>buf buf'. length buf = 5 \<and> copyTo a buf 5 = Inr buf' \<longrightarrow> y = buf' ! unat i)))
   \<and> operator_index (Address_u64 0x0102030405) 0 = Inr 0x01
   \<and> operator_index (Address_u64 0x0102030405) 4 = Inr 0x05"
proof (intro conjI impI)
  assume "i \<le> 4"
  then have i: "i = 0 \<or> i = 1 \<or> i = 2 \<or> i = 3 \<or> i = 4"
    by (rule index_cases)
  have p: "unat (toInt a) div 256 ^ 4 = unat (toInt a) div 2 ^ 32"
    "unat (toInt a) div 256 ^ 3 = unat (toInt a) div 2 ^ 24"
    "unat (toInt a) div 256 ^ 2 = unat (toInt a) div 2 ^ 16"
    "unat (toInt a) div 256 = unat (toInt a) div 2 ^ 8"
    by simp_all
  have c: "copyTo a buf 5 = Inr [ucast (drop_bit 32 (m_a a) AND 0xff),
       ucast (drop_bit 24 (m_a a) AND 0xff), ucast (drop_bit 16 (m_a a) AND 0xff),
       ucast (drop_bit 8 (m_a a) AND 0xff), ucast (m_a a AND 0xff)]"
    if "length buf = 5" for buf
    using that by (simp add: copyTo_long)
  have v: "unat (ucast (drop_bit 32 (m_a a) AND 0xff) :: 8 word) = unat (toInt a) div 256 ^ 4 mod 256"
    "unat (ucast (drop_bit 24 (m_a a) AND 0xff) :: 8 word) = unat (toInt a) div 256 ^ 3 mod 256"
    "unat (ucast (drop_bit 16 (m_a a) AND 0xff) :: 8 word) = unat (toInt a) div 256 ^ 2 mod 256"
    "unat (ucast (drop_bit 8 (m_a a) AND 0xff) :: 8 word) = unat (toInt a) div 256 mod 256"
    "unat (ucast (drop_bit 0 (m_a a) AND 0xff) :: 8 word) = unat (toInt a) mod 256"
    unfolding p unat_byte toInt_def by simp_all
  show "\<exists>y. operator_index a i = Inr y
         \<and> y = ucast (drop_bit (32 - 8 * unat i) (toInt a) AND 0xff)
         \<and> unat y = unat (toInt a) div 256 ^ (4 - unat i) mod 256
         \<and> (\<forall>buf buf'. length buf = 5 \<and> copyTo a buf 5 = Inr buf' \<longrightarrow> y = buf' ! unat i)"
    using i
  proof (elim disjE)
    assume "i = 0"
    then show ?thesis
      using v(1) by (auto simp add: operator_index_values c) (simp add: toInt_def)
  next
    assume "i = 1"
    then show ?thesis
      using v(2) by (auto simp add: operator_index_values c) (simp add: toInt_def)
  next
    assume "i = 2"
    then show ?thesis
      using v(3) by (auto simp add: operator_index_values c) (simp add: toInt_def)
  next
    assume "i = 3"
    then show ?thesis
      using v(4) by (auto simp add: operator_index_values c) (simp add: toInt_def)
  next
    assume "i = 4"
    then show ?thesis
      using v(5) by (auto simp add: operator_index_values c) (simp add: toInt_def)
  qed
next
  show "operator_index (Address_u64 0x0102030405) 0 = Inr 0x01"
    by (simp add: operator_index_values Address_u64_def)
  show "operator_index (Address_u64 0x0102030405) 4 = Inr 0x05"
    by (simp add: operator_index_values Address_u64_def)
qed

theorem byte_indexing_witness:
  "(2 :: 32 word) \<le> 4 \<and> operator_index (Address_u64 0x0102030405) 2 = Inr 0x03
   \<and> length [0, 0, 0, 0, 0 :: 8 word] = 5
   \<and> copyTo (Address_u64 0x0102030405) [0, 0, 0, 0, 0] 5 = Inr [1, 2, 3, 4, 5]
   \<and> operator_index (Address_u64 0x0102030405) 5 = Inl ShiftTooWide"
  using byte_indexing [of 2 "Address_u64 0x0102030405"]
  by (simp add: operator_index_def Address_u64_def copyTo_def ZT_ADDRESS_LENGTH_def)

text \<open>
  C9. Hash consistency. \<open>hashCode\<close> is a function of the value \<open>toInt\<close> returns (its cast
  to the width of \<open>unsigned long\<close>), and addresses that compare equal have equal hash codes.
\<close>

theorem hash_consistency:
  "(hashCode a :: 'w::len word) = ucast (toInt a)
   \<and> (operator_eq a b \<longrightarrow> (hashCode a :: 'w word) = hashCode b)"
  by (simp add: hashCode_def toInt_def operator_eq_def)

theorem hash_consistency_witness:
  "operator_eq (Address_u64 0x10000000001) (Address_u64 1)
   \<and> (hashCode (Address_u64 0x10000000001) :: 32 word) = hashCode (Address_u64 1)"
  using hash_consistency [where 'w = 32, of "Address_u64 0x10000000001" "Address_u64 1"]
  by (simp add: operator_eq_def Address_u64_def)

text \<open>
  C10. Hash identity and injectivity. \<open>hashCode a\<close> is \<open>toInt a\<close> modulo \<open>2 ^ w\<close>, for \<open>w\<close> the
  width of \<open>unsigned long\<close>; when \<open>w\<close> is at least 40, two addresses with bits 40 to 63
  clear have the same hash code only if they are the same address.
\<close>

theorem hash_identity:
  "unat (hashCode a :: 'w::len word) = unat (toInt a) mod 2 ^ LENGTH('w)
   \<and> (40 \<le> LENGTH('w) \<and> addr_inv a \<and> addr_inv b \<longrightarrow>
        ((hashCode a :: 'w word) = hashCode b) = (a = b))"
proof (intro conjI impI)
  show m: "unat (hashCode a :: 'w word) = unat (toInt a) mod 2 ^ LENGTH('w)" for a
    by (simp add: hashCode_def toInt_def unsigned_ucast_eq take_bit_eq_mod)
  assume h: "40 \<le> LENGTH('w) \<and> addr_inv a \<and> addr_inv b"
  have small: "unat (toInt x) mod 2 ^ LENGTH('w) = unat (toInt x)" if "addr_inv x" for x
  proof -
    have "unat (m_a x) < unat (2 ^ 40 :: 64 word)"
      using that unfolding addr_inv_less word_less_nat_alt .
    then have "unat (toInt x) < 2 ^ 40"
      by (simp add: toInt_def)
    also have "(2 :: nat) ^ 40 \<le> 2 ^ LENGTH('w)"
      using h by (intro power_increasing) simp_all
    finally show ?thesis by simp
  qed
  show "((hashCode a :: 'w word) = hashCode b) = (a = b)"
  proof
    assume "(hashCode a :: 'w word) = hashCode b"
    then have "unat (hashCode a :: 'w word) = unat (hashCode b :: 'w word)"
      by simp
    then have "unat (toInt a) = unat (toInt b)"
      using h by (simp add: m small)
    then show "a = b"
      by (simp add: toInt_def word_unat_eq_iff)
  qed simp
qed

theorem hash_identity_witness:
  "40 \<le> LENGTH(64) \<and> addr_inv (Address_u64 1) \<and> addr_inv (Address_u64 2)
   \<and> (hashCode (Address_u64 1) :: 64 word) \<noteq> hashCode (Address_u64 2)
   \<and> unat (hashCode (Address_u64 0xff00000001) :: 32 word) = 1"
  using hash_identity [where 'w = 64, of "Address_u64 1" "Address_u64 2"]
    hash_identity [where 'w = 32, of "Address_u64 0xff00000001"]
  by (simp add: addr_inv_def Address_u64_def toInt_def)

end
